theory Spec2Isabelle
  imports Main "HOL-Library.AList" "HOL-Library.Sublist"
begin

section \<open>Text helpers of the Python runtime\<close>

text \<open>
  Python strings are modelled as \<^typ>\<open>string\<close>, read as the UTF-8 bytes of the text.
  \<open>str.split()\<close> and \<open>str.strip()\<close> cut at the whitespace characters of Python:
  U+0009 to U+000D, U+001C to U+0020, U+0085, U+00A0, U+1680, U+2000 to U+200A, U+2028,
  U+2029, U+202F, U+205F and U+3000. \<open>WHITESPACE\<close> lists their UTF-8 encodings. In
  well-formed UTF-8 no encoding starts inside another character, so reading the bytes from
  the left, or from the right with the encodings reversed, finds exactly these characters.
\<close>

definition WHITESPACE :: "string list" where
  "WHITESPACE =
     [[CHR 0x09], [CHR 0x0A], [CHR 0x0B], [CHR 0x0C], [CHR 0x0D],
      [CHR 0x1C], [CHR 0x1D], [CHR 0x1E], [CHR 0x1F], [CHR 0x20],
      [CHR 0xC2, CHR 0x85], [CHR 0xC2, CHR 0xA0],
      [CHR 0xE1, CHR 0x9A, CHR 0x80],
      [CHR 0xE2, CHR 0x80, CHR 0x80], [CHR 0xE2, CHR 0x80, CHR 0x81],
      [CHR 0xE2, CHR 0x80, CHR 0x82], [CHR 0xE2, CHR 0x80, CHR 0x83],
      [CHR 0xE2, CHR 0x80, CHR 0x84], [CHR 0xE2, CHR 0x80, CHR 0x85],
      [CHR 0xE2, CHR 0x80, CHR 0x86], [CHR 0xE2, CHR 0x80, CHR 0x87],
      [CHR 0xE2, CHR 0x80, CHR 0x88], [CHR 0xE2, CHR 0x80, CHR 0x89],
      [CHR 0xE2, CHR 0x80, CHR 0x8A],
      [CHR 0xE2, CHR 0x80, CHR 0xA8], [CHR 0xE2, CHR 0x80, CHR 0xA9],
      [CHR 0xE2, CHR 0x80, CHR 0xAF],
      [CHR 0xE2, CHR 0x81, CHR 0x9F],
      [CHR 0xE3, CHR 0x80, CHR 0x80]]"

text \<open>
  The number of bytes of the entry of \<open>table\<close> with which the text starts, and 0 when
  it starts with none.
\<close>

definition match_len :: "string list \<Rightarrow> string \<Rightarrow> nat" where
  "match_len table text =
     (case List.find (\<lambda>w. prefix w text) table of None \<Rightarrow> 0 | Some w \<Rightarrow> length w)"

text \<open>
  \<open>text.split()\<close>: the maximal runs of non-whitespace characters, in order. \<open>cur\<close>
  collects, reversed, the word being read; \<open>skip\<close> counts the bytes still to pass of a
  whitespace character that is longer than one byte.
\<close>

fun split_from :: "nat \<Rightarrow> string \<Rightarrow> string \<Rightarrow> string list" where
  "split_from skip cur [] = (if cur = [] then [] else [rev cur])"
| "split_from skip cur (c # cs) =
     (if 0 < skip then split_from (skip - 1) cur cs
      else (case match_len WHITESPACE (c # cs) of
              0 \<Rightarrow> split_from 0 (c # cur) cs
            | Suc n \<Rightarrow> (if cur = [] then split_from n [] cs else rev cur # split_from n [] cs)))"

definition split :: "string \<Rightarrow> string list" where
  "split text = split_from 0 [] text"

text \<open>
  \<open>text.strip()\<close>: whitespace removed at both ends. \<open>drop_spaces\<close> removes it at the
  front; the back is the front of the reversed text, read with the reversed encodings.
\<close>

fun drop_spaces :: "string list \<Rightarrow> nat \<Rightarrow> string \<Rightarrow> string" where
  "drop_spaces table skip [] = []"
| "drop_spaces table skip (c # cs) =
     (if 0 < skip then drop_spaces table (skip - 1) cs
      else (case match_len table (c # cs) of
              0 \<Rightarrow> c # cs
            | Suc n \<Rightarrow> drop_spaces table n cs))"

definition strip :: "string \<Rightarrow> string" where
  "strip text =
     rev (drop_spaces (map rev WHITESPACE) 0 (rev (drop_spaces WHITESPACE 0 text)))"

text \<open>\<open>sep.join(parts)\<close>.\<close>

fun join :: "string \<Rightarrow> string list \<Rightarrow> string" where
  "join sep [] = []"
| "join sep [x] = x"
| "join sep (x # y # ys) = x @ sep @ join sep (y # ys)"

section \<open>Token estimate and the trimming loop\<close>

definition TOKEN_LIMIT :: nat where
  "TOKEN_LIMIT = 4000"

text \<open>\<open>count_tokens(text)\<close> is \<open>len(text.split())\<close>.\<close>

definition count_tokens :: "string \<Rightarrow> nat" where
  "count_tokens text = length (split text)"

text \<open>\<open>sum(count_tokens(msg) for msg in conversation)\<close>.\<close>

definition total_tokens :: "string list \<Rightarrow> nat" where
  "total_tokens conversation = sum_list (map count_tokens conversation)"

text \<open>
  The loop of \<open>ask_with_mood\<close>:
  \<^verbatim>\<open>
  total_tokens = sum(count_tokens(msg) for msg in conversation)
  while total_tokens > TOKEN_LIMIT and conversation:
      removed = conversation.pop(0)
      total_tokens = sum(count_tokens(msg) for msg in conversation)
  \<close>
  The function returns the list the loop leaves behind; the log line written for each
  removed message is not modelled.
\<close>

function trim :: "string list \<Rightarrow> string list" where
  "trim conversation =
     (if total_tokens conversation > TOKEN_LIMIT \<and> conversation \<noteq> []
      then trim (tl conversation)
      else conversation)"
  by pat_completeness auto
termination
  by (relation "measure length") auto

declare trim.simps [simp del]

section \<open>The model call\<close>

text \<open>
  The call of the language model is outside the program. It is a parameter of the model:
  a function from the prompt to \<open>Some content\<close>, the text of the response, or to
  \<open>None\<close> when anything inside the \<open>try\<close> block of \<open>ask_llm\<close> raises. The
  system message sent with the prompt is a constant and is left out.
\<close>

type_synonym llm = "string \<Rightarrow> string option"

definition FALLBACK :: string where
  "FALLBACK = ''Oops, I had trouble thinking. Try asking me again!''"

text \<open>
  The prompt of \<open>ask_llm\<close>:
  \<^verbatim>\<open>
  conversation_text = "\n".join(conversation) + f"\nUser: {question}"
  prompt = f"Respond in a {mood} tone.\n{conversation_text}"
  \<close>
\<close>

definition ask_llm_prompt :: "string \<Rightarrow> string \<Rightarrow> string list \<Rightarrow> string" where
  "ask_llm_prompt question mood conversation =
     (let conversation_text = join ''\<newline>'' conversation @ ''\<newline>User: '' @ question
      in ''Respond in a '' @ mood @ '' tone.\<newline>'' @ conversation_text)"

definition ask_llm :: "llm \<Rightarrow> string \<Rightarrow> string \<Rightarrow> string list \<Rightarrow> string" where
  "ask_llm llm question mood conversation =
     (case llm (ask_llm_prompt question mood conversation) of
        Some content \<Rightarrow> strip content
      | None \<Rightarrow> FALLBACK)"

section \<open>The state of the bot\<close>

text \<open>
  The four module-level dictionaries. A dictionary is an association list in insertion
  order. The values of \<open>conversation_state\<close> and \<open>story_state\<close> are Python list
  objects, which the handlers change in place: the dictionaries hold their addresses and
  \<open>heap\<close> holds their contents. \<open>next_addr\<close> is the first address not yet handed
  out. \<open>mood_timers\<close> is a \<open>defaultdict(lambda: None)\<close>, so its values are optional.
  User and channel identifiers are integers; a \<open>datetime\<close> is counted in microseconds.
\<close>

type_synonym user_id = int
type_synonym channel_id = int
type_synonym datetime = int
type_synonym addr = nat

record state =
  user_moods :: "(user_id \<times> string) list"
  mood_timers :: "(user_id \<times> datetime option) list"
  conversation_state :: "(user_id \<times> addr) list"
  story_state :: "(channel_id \<times> addr) list"
  heap :: "addr \<Rightarrow> string list"
  next_addr :: addr

definition initial_state :: state where
  "initial_state =
     \<lparr>user_moods = [], mood_timers = [], conversation_state = [], story_state = [],
      heap = (\<lambda>a. []), next_addr = 0\<rparr>"

text \<open>\<open>timedelta(minutes=n)\<close>.\<close>

definition minutes :: "int \<Rightarrow> int" where
  "minutes n = n * 60000000"

text \<open>\<open>d.get(k, default)\<close>.\<close>

definition dict_get :: "('k \<times> 'v) list \<Rightarrow> 'k \<Rightarrow> 'v \<Rightarrow> 'v" where
  "dict_get d k dflt = (case map_of d k of Some v \<Rightarrow> v | None \<Rightarrow> dflt)"

text \<open>
  \<open>d[k] = v\<close> is \<^const>\<open>AList.update\<close> (an existing key keeps its place, a new one goes
  to the end) and \<open>d.pop(k, None)\<close> is \<^const>\<open>AList.delete\<close>.
\<close>

text \<open>\<open>list()\<close>, the default factory of the two ledgers: a fresh empty list object.\<close>

definition new_list :: "state \<Rightarrow> addr \<times> state" where
  "new_list st =
     (next_addr st,
      st\<lparr>heap := (heap st)(next_addr st := []), next_addr := Suc (next_addr st)\<rparr>)"

text \<open>\<open>conversation_state[user_id]\<close>: a missing key is inserted with a fresh list.\<close>

definition conversation_state_getitem :: "user_id \<Rightarrow> state \<Rightarrow> addr \<times> state" where
  "conversation_state_getitem user_id st =
     (case map_of (conversation_state st) user_id of
        Some a \<Rightarrow> (a, st)
      | None \<Rightarrow>
          (let (a, st1) = new_list st
           in (a, st1\<lparr>conversation_state := conversation_state st1 @ [(user_id, a)]\<rparr>)))"

text \<open>\<open>story_state[channel_id]\<close>, likewise.\<close>

definition story_state_getitem :: "channel_id \<Rightarrow> state \<Rightarrow> addr \<times> state" where
  "story_state_getitem channel_id st =
     (case map_of (story_state st) channel_id of
        Some a \<Rightarrow> (a, st)
      | None \<Rightarrow>
          (let (a, st1) = new_list st
           in (a, st1\<lparr>story_state := story_state st1 @ [(channel_id, a)]\<rparr>)))"

text \<open>\<open>mood_timers[user_id]\<close>: a missing key is inserted with the value \<open>None\<close>.\<close>

definition mood_timers_getitem :: "user_id \<Rightarrow> state \<Rightarrow> datetime option \<times> state" where
  "mood_timers_getitem user_id st =
     (case map_of (mood_timers st) user_id of
        Some v \<Rightarrow> (v, st)
      | None \<Rightarrow> (None, st\<lparr>mood_timers := mood_timers st @ [(user_id, None)]\<rparr>))"

text \<open>\<open>xs.append(x)\<close> on the list object at address \<open>a\<close>.\<close>

definition list_append :: "addr \<Rightarrow> string \<Rightarrow> state \<Rightarrow> state" where
  "list_append a x st = st\<lparr>heap := (heap st)(a := heap st a @ [x])\<rparr>"

section \<open>The commands\<close>

text \<open>
  Each handler is a function of the arguments the transport layer supplies (the author's
  identifier and name, the channel, the clock reading, the model call) and of the state.
  It returns the text it sends and the new state. A handler is taken as one step: what
  other handlers do while a model call is awaited is outside this model. Log lines and the
  cutting of a reply into chunks of 2000 characters are not modelled.
\<close>

text \<open>\<open>!setmood\<close>.\<close>

definition set_mood :: "datetime \<Rightarrow> user_id \<Rightarrow> string \<Rightarrow> string \<Rightarrow> state \<Rightarrow> string \<times> state" where
  "set_mood now user_id author_name mood st =
     (let st1 = st\<lparr>user_moods := AList.update user_id mood (user_moods st)\<rparr>;
          st2 = st1\<lparr>mood_timers := AList.update user_id (Some (now + minutes 60)) (mood_timers st1)\<rparr>
      in (''Bot mood for '' @ author_name @ '' has been set to '' @ mood @
            ''. It will last for 60 minutes.'', st2))"

text \<open>\<open>!ask\<close>.\<close>

definition ask_with_mood :: "llm \<Rightarrow> user_id \<Rightarrow> string \<Rightarrow> state \<Rightarrow> string \<times> state" where
  "ask_with_mood llm user_id question st =
     (let mood = dict_get (user_moods st) user_id ''friendly'';
          (conversation, st1) = conversation_state_getitem user_id st;
          st2 = list_append conversation (''User: '' @ question) st1;
          st3 = st2\<lparr>heap := (heap st2)(conversation := trim (heap st2 conversation))\<rparr>;
          response = ask_llm llm question mood (heap st3 conversation);
          st4 = list_append conversation (''Bot: '' @ response) st3;
          st5 = st4\<lparr>conversation_state :=
                  AList.update user_id conversation (conversation_state st4)\<rparr>
      in (response, st5))"

text \<open>
  \<open>!story\<close>. The addition is optional: \<open>None\<close> when the command came without
  text. \<open>if addition:\<close> holds for a text that is present and not empty. The header of
  a read is the byte sequence of the source file.
\<close>

definition STORY_READ_HEADER :: string where
  "STORY_READ_HEADER =
     ''Here'' @ [CHR 0xC3, CHR 0xA2, CHR 0xE2, CHR 0x82, CHR 0xAC, CHR 0xE2, CHR 0x84, CHR 0xA2] @
     ''s the story so far:\<newline>''"

definition story :: "channel_id \<Rightarrow> string \<Rightarrow> string option \<Rightarrow> state \<Rightarrow> string \<times> state" where
  "story channel_id author_name addition st =
     (let (story, st1) = story_state_getitem channel_id st;
          requested =
            (if heap st1 story \<noteq> []
             then STORY_READ_HEADER @ join ''\<newline>'' (heap st1 story)
             else ''No story started yet!'', st1)
      in case addition of
           None \<Rightarrow> requested
         | Some text \<Rightarrow>
             (if text \<noteq> []
              then (let st2 = list_append story (author_name @ '': '' @ text) st1
                    in (''Story so far:\<newline>'' @ join ''\<newline>'' (heap st2 story), st2))
              else requested))"

text \<open>\<open>!trivia\<close> and \<open>!summarize\<close>: \<open>ask_llm\<close> with its default empty conversation.\<close>

definition trivia :: "llm \<Rightarrow> user_id \<Rightarrow> state \<Rightarrow> string \<times> state" where
  "trivia llm user_id st =
     (let prompt = ''Ask me a fun trivia question.'';
          mood = dict_get (user_moods st) user_id ''friendly'';
          response = ask_llm llm prompt mood []
      in (''Trivia Time: '' @ response, st))"

definition summarize :: "llm \<Rightarrow> user_id \<Rightarrow> string \<Rightarrow> state \<Rightarrow> string \<times> state" where
  "summarize llm user_id text st =
     (let prompt = ''Summarize this text in a concise manner: '' @ text;
          mood = dict_get (user_moods st) user_id ''friendly'';
          response = ask_llm llm prompt mood []
      in (''Summary: '' @ response, st))"

section \<open>The periodic task\<close>

text \<open>
  \<^verbatim>\<open>
  for user_id in list(mood_timers):
      if datetime.now() > mood_timers[user_id]:
          user_moods.pop(user_id, None)
          mood_timers.pop(user_id, None)
  \<close>
  The clock is read once for every key visited: \<open>now user_id\<close> is the reading taken in
  the iteration for \<open>user_id\<close>. Comparing a \<open>datetime\<close> with \<open>None\<close> raises
  \<open>TypeError\<close>; the exception leaves the loop, and the dictionaries keep what the
  earlier iterations did. What the scheduler does with the exception is outside the
  program.
\<close>

datatype error = TypeError

fun reset_mood_loop :: "(user_id \<Rightarrow> datetime) \<Rightarrow> user_id list \<Rightarrow> state \<Rightarrow> error option \<times> state" where
  "reset_mood_loop now [] st = (None, st)"
| "reset_mood_loop now (user_id # rest) st =
     (let (timer, st1) = mood_timers_getitem user_id st
      in case timer of
           None \<Rightarrow> (Some TypeError, st1)
         | Some t \<Rightarrow>
             (if now user_id > t
              then reset_mood_loop now rest
                     (st1\<lparr>user_moods := AList.delete user_id (user_moods st1),
                          mood_timers := AList.delete user_id (mood_timers st1)\<rparr>)
              else reset_mood_loop now rest st1))"

definition reset_mood_task :: "(user_id \<Rightarrow> datetime) \<Rightarrow> state \<Rightarrow> error option \<times> state" where
  "reset_mood_task now st = reset_mood_loop now (map fst (mood_timers st)) st"


section \<open>Runs of the bot\<close>

text \<open>
  A run is a list of events, each with the arguments its handler receives. The commands
  \<open>!models\<close> and \<open>!help\<close> touch none of the four dictionaries and are left out.
\<close>

datatype event =
    SetMood datetime user_id string string
  | Ask llm user_id string
  | Story channel_id string "string option"
  | Trivia llm user_id
  | Summarize llm user_id string
  | Tick "user_id \<Rightarrow> datetime"

fun step :: "event \<Rightarrow> state \<Rightarrow> state" where
  "step (SetMood now u author mood) st = snd (set_mood now u author mood st)"
| "step (Ask llm u question) st = snd (ask_with_mood llm u question st)"
| "step (Story c author addition) st = snd (story c author addition st)"
| "step (Trivia llm u) st = snd (trivia llm u st)"
| "step (Summarize llm u text) st = snd (summarize llm u text st)"
| "step (Tick now) st = snd (reset_mood_task now st)"

fun run :: "event list \<Rightarrow> state \<Rightarrow> state" where
  "run [] st = st"
| "run (e # es) st = run es (step e st)"

text \<open>What a reader of the state sees: the turns of a user and the story of a channel.\<close>

definition conversation_of :: "state \<Rightarrow> user_id \<Rightarrow> string list" where
  "conversation_of st u =
     (case map_of (conversation_state st) u of None \<Rightarrow> [] | Some a \<Rightarrow> heap st a)"

definition story_of :: "state \<Rightarrow> channel_id \<Rightarrow> string list" where
  "story_of st c =
     (case map_of (story_state st) c of None \<Rightarrow> [] | Some a \<Rightarrow> heap st a)"

section \<open>Notions used to state the properties\<close>

text \<open>
  No two ledgers share a list object, and every list object in use lies below
  \<open>next_addr\<close>.
\<close>

definition ledgers_ok :: "state \<Rightarrow> bool" where
  "ledgers_ok st \<longleftrightarrow>
     distinct (map snd (conversation_state st) @ map snd (story_state st)) \<and>
     (\<forall>a \<in> set (map snd (conversation_state st) @ map snd (story_state st)).
        a < next_addr st)"

text \<open>What one user, and one channel, can observe of two states is the same.\<close>

definition same_user :: "state \<Rightarrow> state \<Rightarrow> user_id \<Rightarrow> bool" where
  "same_user st st' v \<longleftrightarrow>
     map_of (user_moods st') v = map_of (user_moods st) v \<and>
     map_of (mood_timers st') v = map_of (mood_timers st) v \<and>
     map_of (conversation_state st') v = map_of (conversation_state st) v \<and>
     conversation_of st' v = conversation_of st v"

definition same_channel :: "state \<Rightarrow> state \<Rightarrow> channel_id \<Rightarrow> bool" where
  "same_channel st st' c \<longleftrightarrow>
     map_of (story_state st') c = map_of (story_state st) c \<and>
     story_of st' c = story_of st c"

definition no_sharing :: "state \<Rightarrow> bool" where
  "no_sharing st \<longleftrightarrow>
     (\<forall>u v a. map_of (conversation_state st) u = Some a \<longrightarrow>
        map_of (conversation_state st) v = Some a \<longrightarrow> u = v) \<and>
     (\<forall>c d a. map_of (story_state st) c = Some a \<longrightarrow>
        map_of (story_state st) d = Some a \<longrightarrow> c = d) \<and>
     (\<forall>u c a. map_of (conversation_state st) u = Some a \<longrightarrow>
        map_of (story_state st) c \<noteq> Some a)"

text \<open>
  The contributions a run makes to the story of channel \<open>c\<close>, in the order of the run:
  one entry for each \<open>!story\<close> on \<open>c\<close> that comes with a text.
\<close>

fun contribution :: "channel_id \<Rightarrow> event \<Rightarrow> string list" where
  "contribution c (Story c' author (Some text)) =
     (if c' = c \<and> text \<noteq> [] then [author @ '': '' @ text] else [])"
| "contribution c e = []"

fun contributions :: "channel_id \<Rightarrow> event list \<Rightarrow> string list" where
  "contributions c [] = []"
| "contributions c (e # es) = contribution c e @ contributions c es"

text \<open>
  The Mood Registry in the words of the specification: one entry per identity, a label
  and the time \<open>expiresAt\<close>. \<open>setMood\<close> overwrites the entry with
  \<open>expiresAt = now + 60 minutes\<close>; a sweep deletes every entry with \<open>now > expiresAt\<close>;
  no other event touches it. \<open>stored_or_default\<close> reads an entry without looking at
  the clock.
\<close>

type_synonym registry = "user_id \<Rightarrow> (string \<times> datetime) option"

fun registry_step :: "event \<Rightarrow> registry \<Rightarrow> registry" where
  "registry_step (SetMood now u author mood) reg = reg(u \<mapsto> (mood, now + minutes 60))"
| "registry_step (Tick now) reg =
     (\<lambda>u. case reg u of
             None \<Rightarrow> None
           | Some (label, expiresAt) \<Rightarrow>
               if now u > expiresAt then None else Some (label, expiresAt))"
| "registry_step e reg = reg"

fun registry_run :: "event list \<Rightarrow> registry \<Rightarrow> registry" where
  "registry_run [] reg = reg"
| "registry_run (e # es) reg = registry_run es (registry_step e reg)"

definition stored_or_default :: "registry \<Rightarrow> user_id \<Rightarrow> string" where
  "stored_or_default reg u = (case reg u of None \<Rightarrow> ''friendly'' | Some (label, expiresAt) \<Rightarrow> label)"

text \<open>
  The two mood dictionaries of a state hold the registry \<open>reg\<close>: the labels in
  \<open>user_moods\<close>, the expiry times in \<open>mood_timers\<close>, under the same keys.
\<close>

definition holds_registry :: "state \<Rightarrow> registry \<Rightarrow> bool" where
  "holds_registry st reg \<longleftrightarrow>
     distinct (map fst (mood_timers st)) \<and>
     map_of (user_moods st) = map_option fst \<circ> reg \<and>
     map_of (mood_timers st) = map_option (Some \<circ> snd) \<circ> reg"

text \<open>Three model calls for concrete runs: a fixed answer, a failure, and an echo.\<close>

definition replies :: "string \<Rightarrow> llm" where
  "replies content prompt = Some content"

definition fails :: llm where
  "fails prompt = None"

definition echo :: llm where
  "echo prompt = Some prompt"



text \<open>A text of \<open>n\<close> words.\<close>

definition words_text :: "nat \<Rightarrow> string" where
  "words_text n = concat (replicate n ''a '')"

section \<open>Properties of the trimming loop\<close>

lemmas text_eval = match_len_def WHITESPACE_def

lemma trim_Nil: "trim [] = []"
  by (subst trim.simps) simp

lemma trim_Cons:
  "trim (m # ms) = (if total_tokens (m # ms) > TOKEN_LIMIT then trim ms else m # ms)"
  by (subst trim.simps) simp

text \<open>
  C5. Trimming removes turns from the front only: the conversation the loop leaves is a
  suffix of the conversation it started from, so the surviving turns keep their order.
\<close>

theorem trim_is_suffix: "suffix (trim conversation) conversation"
proof (induction conversation)
  case Nil
  show ?case by (simp add: trim_Nil)
next
  case (Cons m ms)
  show ?case
  proof (cases "total_tokens (m # ms) > TOKEN_LIMIT")
    case True
    then have "trim (m # ms) = trim ms" by (simp add: trim_Cons)
    with Cons.IH show ?thesis by (simp add: suffix_Cons)
  next
    case False
    then show ?thesis by (simp add: trim_Cons)
  qed
qed

section \<open>The handler of \<open>!ask\<close>\<close>

lemma update_appended: "map_of d k = None \<Longrightarrow> AList.update k v (d @ [(k, v)]) = d @ [(k, v)]"
  by (rule AList.update_triv) (simp add: map_add_def)

lemma ask_with_mood_seen:
  assumes "map_of (conversation_state st) u = Some a"
  shows "ask_with_mood llm u q st =
    (ask_llm llm q (dict_get (user_moods st) u ''friendly'') (trim (heap st a @ [''User: '' @ q])),
     st\<lparr>heap := (heap st)(a := trim (heap st a @ [''User: '' @ q]) @
        [''Bot: '' @ ask_llm llm q (dict_get (user_moods st) u ''friendly'')
            (trim (heap st a @ [''User: '' @ q]))])\<rparr>)"
  using assms
  by (simp add: ask_with_mood_def conversation_state_getitem_def list_append_def Let_def
      AList.update_triv)

lemma ask_with_mood_unseen:
  assumes "map_of (conversation_state st) u = None"
  shows "ask_with_mood llm u q st =
    (ask_llm llm q (dict_get (user_moods st) u ''friendly'') (trim [''User: '' @ q]),
     st\<lparr>conversation_state := conversation_state st @ [(u, next_addr st)],
        heap := (heap st)(next_addr st := trim [''User: '' @ q] @
        [''Bot: '' @ ask_llm llm q (dict_get (user_moods st) u ''friendly'')
            (trim [''User: '' @ q])]),
        next_addr := Suc (next_addr st)\<rparr>)"
  using assms
  by (simp add: ask_with_mood_def conversation_state_getitem_def new_list_def list_append_def
      Let_def update_appended)

lemma ask_with_mood_response:
  "fst (ask_with_mood llm u q st) =
     ask_llm llm q (dict_get (user_moods st) u ''friendly'')
       (trim (conversation_of st u @ [''User: '' @ q]))"
proof (cases "map_of (conversation_state st) u")
  case None
  then show ?thesis by (simp add: ask_with_mood_unseen conversation_of_def)
next
  case (Some a)
  then show ?thesis by (simp add: ask_with_mood_seen conversation_of_def)
qed

lemma ask_with_mood_conversation:
  "conversation_of (snd (ask_with_mood llm u q st)) u =
     trim (conversation_of st u @ [''User: '' @ q]) @
     [''Bot: '' @ fst (ask_with_mood llm u q st)]"
proof (cases "map_of (conversation_state st) u")
  case None
  then show ?thesis by (simp add: ask_with_mood_unseen conversation_of_def map_add_def)
next
  case (Some a)
  then show ?thesis by (simp add: ask_with_mood_seen conversation_of_def)
qed

lemma total_tokens_trim: "total_tokens (trim conversation) \<le> TOKEN_LIMIT"
proof (induction conversation)
  case Nil
  show ?case by (simp add: trim_Nil total_tokens_def)
next
  case (Cons m ms)
  then show ?case by (simp add: trim_Cons)
qed

lemma total_tokens_append:
  "total_tokens (xs @ ys) = total_tokens xs + total_tokens ys"
  by (simp add: total_tokens_def)

lemma trim_drop: "\<exists>n. trim conversation = drop n conversation"
proof (induction conversation)
  case Nil
  show ?case by (simp add: trim_Nil)
next
  case (Cons m ms)
  show ?case
  proof (cases "total_tokens (m # ms) > TOKEN_LIMIT")
    case True
    from Cons.IH obtain n where "trim ms = drop n ms" ..
    then have "trim (m # ms) = drop (Suc n) (m # ms)"
      using True by (simp add: trim_Cons)
    then show ?thesis ..
  next
    case False
    then have "trim (m # ms) = drop 0 (m # ms)" by (simp add: trim_Cons)
    then show ?thesis ..
  qed
qed

lemma trim_suffix: "suffix (trim conversation) conversation"
proof -
  obtain n where "trim conversation = drop n conversation"
    using trim_drop by blast
  then show ?thesis by (simp add: suffix_drop)
qed

lemma total_tokens_suffix:
  assumes "suffix ys xs"
  shows "total_tokens ys \<le> total_tokens xs"
proof -
  from assms obtain zs where "xs = zs @ ys" by (auto simp: suffix_def)
  then show ?thesis by (simp add: total_tokens_append)
qed

lemma trim_keeps_fitting:
  assumes "suffix ys conversation" and "total_tokens ys \<le> TOKEN_LIMIT"
  shows "suffix ys (trim conversation)"
  using assms
proof (induction conversation)
  case Nil
  then show ?case by (simp add: trim_Nil)
next
  case (Cons m ms)
  show ?case
  proof (cases "total_tokens (m # ms) > TOKEN_LIMIT")
    case True
    with Cons.prems have "ys \<noteq> m # ms" by auto
    with Cons.prems have "suffix ys ms" by (simp add: suffix_Cons)
    with Cons have "suffix ys (trim ms)" by simp
    with True show ?thesis by (simp add: trim_Cons)
  next
    case False
    with Cons.prems show ?thesis by (simp add: trim_Cons)
  qed
qed

lemma trim_newest_turn:
  "trim (xs @ [x]) = [] \<longleftrightarrow> TOKEN_LIMIT < count_tokens x"
proof
  assume empty: "trim (xs @ [x]) = []"
  show "TOKEN_LIMIT < count_tokens x"
  proof (rule ccontr)
    assume "\<not> TOKEN_LIMIT < count_tokens x"
    then have "total_tokens [x] \<le> TOKEN_LIMIT" by (simp add: total_tokens_def)
    moreover have "suffix [x] (xs @ [x])" by (simp add: suffix_def)
    ultimately have "suffix [x] (trim (xs @ [x]))" by (rule trim_keeps_fitting [rotated])
    with empty show False by simp
  qed
next
  assume big: "TOKEN_LIMIT < count_tokens x"
  show "trim (xs @ [x]) = []"
  proof (rule ccontr)
    assume ne: "trim (xs @ [x]) \<noteq> []"
    have suf: "suffix (trim (xs @ [x])) (xs @ [x])" by (rule trim_suffix)
    then obtain zs where zs: "xs @ [x] = zs @ trim (xs @ [x])" by (auto simp: suffix_def)
    from ne obtain ws w where ws: "trim (xs @ [x]) = ws @ [w]"
      by (metis rev_exhaust)
    with zs have "w = x" by (metis append_assoc last_snoc)
    with ws have "count_tokens x \<le> total_tokens (trim (xs @ [x]))"
      by (simp add: total_tokens_def)
    with total_tokens_trim [of "xs @ [x]"] big show False by simp
  qed
qed

text \<open>
  C1, as the code has it. \<open>turns\<close> is the ledger of the user with the new user turn
  appended. The trim that follows leaves a suffix of \<open>turns\<close> of at most
  \<open>TOKEN_LIMIT\<close> estimated tokens, and the longest one: every suffix of \<open>turns\<close>
  that is within the limit is a suffix of what is left, so turns are removed from the
  front only as long as the sum exceeds the limit. Nothing is left exactly when the new
  user turn alone exceeds the limit. The bot turn is appended afterwards and nothing is
  trimmed then: the ledger ends with the bot turn, and its size is at most
  \<open>TOKEN_LIMIT\<close> plus the estimate of that turn. This holds in every state, so after
  every \<open>!ask\<close> of every run.
\<close>

theorem ask_with_mood_token_bound:
  fixes st :: state and u :: user_id and q :: string
  defines "turns \<equiv> conversation_of st u @ [''User: '' @ q]"
  shows "suffix (trim turns) turns \<and>
   total_tokens (trim turns) \<le> TOKEN_LIMIT \<and>
   (suffix ys turns \<and> total_tokens ys \<le> TOKEN_LIMIT \<longrightarrow> suffix ys (trim turns)) \<and>
   (trim turns = [] \<longleftrightarrow> TOKEN_LIMIT < count_tokens (''User: '' @ q)) \<and>
   conversation_of (snd (ask_with_mood llm u q st)) u =
     trim turns @ [''Bot: '' @ fst (ask_with_mood llm u q st)] \<and>
   total_tokens (conversation_of (snd (ask_with_mood llm u q st)) u) \<le>
     TOKEN_LIMIT + count_tokens (''Bot: '' @ fst (ask_with_mood llm u q st))"
proof -
  have bound: "total_tokens (trim turns) \<le> TOKEN_LIMIT"
    by (rule total_tokens_trim)
  have newest: "trim turns = [] \<longleftrightarrow> TOKEN_LIMIT < count_tokens (''User: '' @ q)"
    unfolding turns_def by (rule trim_newest_turn)
  have after: "conversation_of (snd (ask_with_mood llm u q st)) u =
      trim turns @ [''Bot: '' @ fst (ask_with_mood llm u q st)]"
    unfolding turns_def by (rule ask_with_mood_conversation)
  have "total_tokens [''Bot: '' @ fst (ask_with_mood llm u q st)] =
      count_tokens (''Bot: '' @ fst (ask_with_mood llm u q st))"
    by (simp add: total_tokens_def)
  with bound after have size: "total_tokens (conversation_of (snd (ask_with_mood llm u q st)) u) \<le>
      TOKEN_LIMIT + count_tokens (''Bot: '' @ fst (ask_with_mood llm u q st))"
    by (simp add: total_tokens_append)
  show ?thesis
    using bound newest after size trim_suffix [of turns] trim_keeps_fitting [of ys turns]
    by blast
qed

subsection \<open>Texts of a given number of words\<close>

lemma split_from_word: "split_from 0 [] (''a '' @ rest) = ''a'' # split_from 0 [] rest"
  by (simp add: text_eval)

lemma split_from_words_text:
  "split_from 0 [] (words_text n @ rest) = replicate n ''a'' @ split_from 0 [] rest"
proof (induction n)
  case 0
  show ?case by (simp add: words_text_def)
next
  case (Suc n)
  have "words_text (Suc n) @ rest = ''a '' @ (words_text n @ rest)"
    by (simp add: words_text_def)
  then show ?case using Suc.IH by (simp only: split_from_word) simp
qed

lemma count_tokens_user_turn: "count_tokens (''User: '' @ words_text n) = Suc n"
proof -
  have "split_from 0 [] (''User: '' @ words_text n) = ''User:'' # split_from 0 [] (words_text n @ [])"
    by (simp add: text_eval)
  then show ?thesis
    by (simp only: split_from_words_text count_tokens_def split_def) simp
qed

lemmas count_tokens_user_turn_cons = count_tokens_user_turn [simplified]

lemma count_tokens_bot_ok: "count_tokens ''Bot: ok'' = 2"
  by (simp add: count_tokens_def split_def text_eval)

lemma conversation_of_initial: "conversation_of initial_state u = []"
  by (simp add: conversation_of_def initial_state_def)

lemma ask_llm_replies: "ask_llm (replies ''ok'') q mood conv = ''ok''"
  by (simp add: ask_llm_def replies_def strip_def text_eval)

text \<open>
  C1 fails as stated. A question of 3999 words makes a user turn of 4000 tokens, which
  stays; with the answer \<open>ok\<close> the ledger then holds two turns of 4002 tokens in all.
  A question of 4000 words makes a user turn of 4001 tokens: the loop removes this only
  turn, the ledger is empty when the model is called, and afterwards it holds the bot turn
  alone.
\<close>

theorem single_turn_and_bot_turn_counterexample:
  "\<not> (total_tokens (conversation_of
          (snd (ask_with_mood (replies ''ok'') 1 (words_text 3999) initial_state)) 1) \<le> TOKEN_LIMIT \<or>
      length (conversation_of
          (snd (ask_with_mood (replies ''ok'') 1 (words_text 3999) initial_state)) 1) = 1) \<and>
   trim (conversation_of initial_state 1 @ [''User: '' @ words_text 4000]) = [] \<and>
   conversation_of (snd (ask_with_mood (replies ''ok'') 1 (words_text 4000) initial_state)) 1 =
     [''Bot: ok'']"
proof -
  have keep: "trim [''User: '' @ words_text 3999] = [''User: '' @ words_text 3999]"
    by (simp add: trim_Cons total_tokens_def count_tokens_user_turn_cons TOKEN_LIMIT_def)
  have drop: "trim [''User: '' @ words_text 4000] = []"
    by (simp add: trim_Cons trim_Nil total_tokens_def count_tokens_user_turn_cons TOKEN_LIMIT_def)
  have a: "conversation_of
      (snd (ask_with_mood (replies ''ok'') 1 (words_text 3999) initial_state)) 1 =
      [''User: '' @ words_text 3999, ''Bot: ok'']"
    by (simp add: ask_with_mood_conversation ask_with_mood_response conversation_of_initial
        keep [simplified] ask_llm_replies)
  have b: "conversation_of
      (snd (ask_with_mood (replies ''ok'') 1 (words_text 4000) initial_state)) 1 = [''Bot: ok'']"
    by (simp add: ask_with_mood_conversation ask_with_mood_response conversation_of_initial
        drop [simplified] ask_llm_replies)
  have c: "total_tokens [''User: '' @ words_text 3999, ''Bot: ok''] = 4002"
    by (simp add: total_tokens_def count_tokens_user_turn_cons count_tokens_bot_ok)
  show ?thesis
    by (simp add: a b c [simplified] drop [simplified] conversation_of_initial TOKEN_LIMIT_def)
qed

lemma conversation_after_long_question:
  "conversation_of (snd (ask_with_mood (replies ''ok'') 1 (words_text 3999) initial_state)) 1 =
     [''User: '' @ words_text 3999, ''Bot: ok'']"
proof -
  have keep: "trim [''User: '' @ words_text 3999] = [''User: '' @ words_text 3999]"
    by (simp add: trim_Cons total_tokens_def count_tokens_user_turn_cons TOKEN_LIMIT_def)
  show ?thesis
    by (simp add: ask_with_mood_conversation ask_with_mood_response conversation_of_initial
        keep [simplified] ask_llm_replies)
qed

text \<open>
  C1 at a run: user 1 has a ledger of 4002 tokens and asks \<open>hi\<close>. The three turns
  hold 4004 tokens; the last two fit the limit and are kept.
\<close>

theorem ask_with_mood_token_bound_witness:
  "suffix [''Bot: ok'', ''User: hi'']
     (conversation_of (snd (ask_with_mood (replies ''ok'') 1 (words_text 3999) initial_state)) 1 @
      [''User: '' @ ''hi'']) \<and>
   total_tokens [''Bot: ok'', ''User: hi''] \<le> TOKEN_LIMIT \<and>
   total_tokens
     (conversation_of (snd (ask_with_mood (replies ''ok'') 1 (words_text 3999) initial_state)) 1 @
      [''User: '' @ ''hi'']) = 4004 \<and>
   suffix [''Bot: ok'', ''User: hi'']
     (trim (conversation_of
        (snd (ask_with_mood (replies ''ok'') 1 (words_text 3999) initial_state)) 1 @
      [''User: '' @ ''hi'']))"
proof -
  let ?st = "snd (ask_with_mood (replies ''ok'') 1 (words_text 3999) initial_state)"
  have hi: "count_tokens ''User: hi'' = 2"
    by (simp add: count_tokens_def split_def text_eval)
  have fits: "total_tokens [''Bot: ok'', ''User: hi''] \<le> TOKEN_LIMIT"
    by (simp add: total_tokens_def count_tokens_bot_ok hi TOKEN_LIMIT_def)
  have suf: "suffix [''Bot: ok'', ''User: hi''] (conversation_of ?st 1 @ [''User: '' @ ''hi''])"
    by (simp add: conversation_after_long_question suffix_Cons)
  have all: "total_tokens (conversation_of ?st 1 @ [''User: '' @ ''hi'']) = 4004"
    by (simp add: conversation_after_long_question total_tokens_def
        count_tokens_user_turn_cons count_tokens_bot_ok hi)
  show ?thesis
    using ask_with_mood_token_bound
      [where ys = "[''Bot: ok'', ''User: hi'']" and st = ?st and u = 1 and q = "''hi''"]
      fits suf all
    by simp
qed

section \<open>Failure of the model call\<close>

text \<open>
  C3. When the model call fails on the prompt that \<open>!ask\<close> builds, the handler sends
  the fixed fallback text, and the ledger of the user ends with the bot turn that carries
  this text.
\<close>

theorem ask_with_mood_model_failure:
  assumes "llm (ask_llm_prompt q (dict_get (user_moods st) u ''friendly'')
             (trim (conversation_of st u @ [''User: '' @ q]))) = None"
  shows "fst (ask_with_mood llm u q st) = FALLBACK \<and>
         conversation_of (snd (ask_with_mood llm u q st)) u \<noteq> [] \<and>
         last (conversation_of (snd (ask_with_mood llm u q st)) u) = ''Bot: '' @ FALLBACK"
proof -
  have "fst (ask_with_mood llm u q st) = FALLBACK"
    using assms by (simp add: ask_with_mood_response ask_llm_def)
  then show ?thesis
    by (simp add: ask_with_mood_conversation)
qed

text \<open>C3 at a run: the first question of user 1 is \<open>hello\<close> and the call fails.\<close>

theorem ask_with_mood_model_failure_witness:
  "fails (ask_llm_prompt ''hello'' (dict_get (user_moods initial_state) 1 ''friendly'')
      (trim (conversation_of initial_state 1 @ [''User: '' @ ''hello'']))) = None \<and>
   fst (ask_with_mood fails 1 ''hello'' initial_state) =
     ''Oops, I had trouble thinking. Try asking me again!'' \<and>
   last (conversation_of (snd (ask_with_mood fails 1 ''hello'' initial_state)) 1) =
     ''Bot: Oops, I had trouble thinking. Try asking me again!''"
  using ask_with_mood_model_failure [of fails "''hello''" initial_state 1]
  by (simp add: fails_def FALLBACK_def)

section \<open>The prompt of \<open>!ask\<close>\<close>

lemma trim_within_limit:
  "total_tokens conversation \<le> TOKEN_LIMIT \<Longrightarrow> trim conversation = conversation"
  by (subst trim.simps) simp

text \<open>
  C4 at a concrete input. User 1, with no history and no mood, asks \<open>hi\<close>. The echo
  call returns the prompt it was given: the question is in it twice, once as the last
  turn of the conversation and once more as the line that \<open>ask_llm\<close> adds.
\<close>

theorem ask_with_mood_repeats_question:
  "fst (ask_with_mood echo 1 ''hi'' initial_state) =
     ''Respond in a friendly tone.\<newline>User: hi\<newline>User: hi''"
proof -
  have "total_tokens [''User: hi''] \<le> TOKEN_LIMIT"
    by (simp add: total_tokens_def count_tokens_def split_def text_eval TOKEN_LIMIT_def)
  then have t: "trim [''User: hi''] = [''User: hi'']"
    by (rule trim_within_limit)
  have r: "fst (ask_with_mood echo 1 ''hi'' initial_state) =
      ask_llm echo ''hi'' (dict_get (user_moods initial_state) 1 ''friendly'') (trim [''User: hi''])"
    by (simp add: ask_with_mood_response conversation_of_initial)
  have m: "dict_get (user_moods initial_state) 1 ''friendly'' = ''friendly''"
    by (simp add: dict_get_def initial_state_def)
  show ?thesis
    unfolding r m t
    by (simp add: ask_llm_def echo_def ask_llm_prompt_def strip_def text_eval)
qed

section \<open>The handler of \<open>!story\<close>\<close>

lemma story_seen:
  assumes "map_of (story_state st) c = Some a"
  shows "story c author addition st =
    (case addition of
       None \<Rightarrow> (if heap st a \<noteq> [] then STORY_READ_HEADER @ join ''\<newline>'' (heap st a)
                 else ''No story started yet!'', st)
     | Some text \<Rightarrow>
        if text \<noteq> []
        then (''Story so far:\<newline>'' @ join ''\<newline>'' (heap st a @ [author @ '': '' @ text]),
              st\<lparr>heap := (heap st)(a := heap st a @ [author @ '': '' @ text])\<rparr>)
        else (if heap st a \<noteq> [] then STORY_READ_HEADER @ join ''\<newline>'' (heap st a)
                 else ''No story started yet!'', st))"
  using assms
  by (simp add: story_def story_state_getitem_def list_append_def Let_def split: option.splits)

lemma story_unseen:
  assumes "map_of (story_state st) c = None"
  shows "story c author addition st =
    (case addition of
       None \<Rightarrow> (''No story started yet!'',
          st\<lparr>story_state := story_state st @ [(c, next_addr st)],
             heap := (heap st)(next_addr st := []), next_addr := Suc (next_addr st)\<rparr>)
     | Some text \<Rightarrow>
        if text \<noteq> []
        then (''Story so far:\<newline>'' @ author @ '': '' @ text,
              st\<lparr>story_state := story_state st @ [(c, next_addr st)],
                 heap := (heap st)(next_addr st := [author @ '': '' @ text]),
                 next_addr := Suc (next_addr st)\<rparr>)
        else (''No story started yet!'',
          st\<lparr>story_state := story_state st @ [(c, next_addr st)],
             heap := (heap st)(next_addr st := []), next_addr := Suc (next_addr st)\<rparr>))"
  using assms
  by (simp add: story_def story_state_getitem_def new_list_def list_append_def Let_def
      split: option.splits)

lemma story_of_story:
  "story_of (snd (story c author addition st)) c =
     story_of st c @ contribution c (Story c author addition)"
proof (cases "map_of (story_state st) c")
  case None
  then show ?thesis
    by (cases addition) (simp_all add: story_unseen story_of_def map_add_def)
next
  case (Some a)
  then show ?thesis
    by (cases addition) (simp_all add: story_seen story_of_def)
qed

text \<open>
  C8. A read of the story of a channel without contributions answers with the text
  \<open>No story started yet!\<close>, in every state: what the other channels hold plays no
  part. The read leaves the story of the channel empty.
\<close>

theorem story_read_of_empty_channel:
  assumes "story_of st c = []"
  shows "fst (story c author None st) = ''No story started yet!'' \<and>
         story_of (snd (story c author None st)) c = []"
proof (cases "map_of (story_state st) c")
  case None
  then show ?thesis by (simp add: story_unseen story_of_def map_add_def)
next
  case (Some a)
  with assms have "heap st a = []" by (simp add: story_of_def)
  with Some show ?thesis by (simp add: story_seen story_of_def)
qed

text \<open>C8 at a run: channel 6 has a story, channel 5 has none and is read.\<close>

theorem story_read_of_empty_channel_witness:
  "story_of (snd (story 6 ''Bob'' (Some ''Once'') initial_state)) 6 = [''Bob: Once''] \<and>
   story_of (snd (story 6 ''Bob'' (Some ''Once'') initial_state)) 5 = [] \<and>
   fst (story 5 ''Alice'' None (snd (story 6 ''Bob'' (Some ''Once'') initial_state))) =
     ''No story started yet!''"
proof -
  have a: "story_of (snd (story 6 ''Bob'' (Some ''Once'') initial_state)) 6 = [''Bob: Once'']"
    by (simp add: story_of_story) (simp add: story_of_def initial_state_def)
  have b: "story_of (snd (story 6 ''Bob'' (Some ''Once'') initial_state)) 5 = []"
    by (simp add: story_unseen story_of_def initial_state_def)
  show ?thesis
    using a b story_read_of_empty_channel [OF b, of "''Alice''"] by simp
qed

section \<open>The handlers of \<open>!trivia\<close> and \<open>!summarize\<close>\<close>

text \<open>
  C9. \<open>!trivia\<close> and \<open>!summarize\<close> return the state they were given, so the ledger
  of every user is as before. Both pass to \<open>ask_llm\<close> an empty conversation and the
  mood \<open>user_moods.get(user_id, "friendly")\<close>, the same lookup from which \<open>!ask\<close>
  takes its mood.
\<close>

theorem trivia_summarize_leave_state:
  "snd (trivia llm u st) = st \<and>
   snd (summarize llm u text st) = st \<and>
   conversation_of (snd (trivia llm u st)) v = conversation_of st v \<and>
   conversation_of (snd (summarize llm u text st)) v = conversation_of st v \<and>
   fst (trivia llm u st) =
     ''Trivia Time: '' @
     ask_llm llm ''Ask me a fun trivia question.'' (dict_get (user_moods st) u ''friendly'') [] \<and>
   fst (summarize llm u text st) =
     ''Summary: '' @
     ask_llm llm (''Summarize this text in a concise manner: '' @ text)
       (dict_get (user_moods st) u ''friendly'') [] \<and>
   fst (ask_with_mood llm u q st) =
     ask_llm llm q (dict_get (user_moods st) u ''friendly'')
       (trim (conversation_of st u @ [''User: '' @ q]))"
  by (simp add: trivia_def summarize_def ask_with_mood_response)

section \<open>What a handler leaves alone\<close>

lemma addr_in_dict: "map_of d k = Some a \<Longrightarrow> a \<in> snd ` set d"
  by (force dest: map_of_SomeD)

lemma addr_of_one_key:
  assumes "distinct (map snd d)" and "map_of d k = Some a" and "map_of d k' = Some a"
  shows "k = k'"
proof -
  have in1: "(k, a) \<in> set d" and in2: "(k', a) \<in> set d"
    using assms by (auto dest: map_of_SomeD)
  have inj: "inj_on snd (set d)"
    using assms(1) by (simp add: distinct_map)
  have "(k, a) = (k', a)"
    using inj_onD [OF inj _ in1 in2] by simp
  then show ?thesis by simp
qed

lemma ledgers_ok_no_sharing:
  assumes "ledgers_ok st"
  shows "no_sharing st"
proof -
  have dc: "distinct (map snd (conversation_state st))"
    and ds: "distinct (map snd (story_state st))"
    and disj: "snd ` set (conversation_state st) \<inter> snd ` set (story_state st) = {}"
    using assms by (auto simp: ledgers_ok_def)
  have "map_of (story_state st) c \<noteq> Some a"
    if "map_of (conversation_state st) u = Some a" for u c a
    using addr_in_dict [OF that] addr_in_dict [of "story_state st" c a] disj by blast
  then show ?thesis
    unfolding no_sharing_def
    using addr_of_one_key [OF dc] addr_of_one_key [OF ds] by blast
qed

lemma ask_with_mood_ledgers_ok:
  assumes "ledgers_ok st"
  shows "ledgers_ok (snd (ask_with_mood llm u q st))"
proof (cases "map_of (conversation_state st) u")
  case None
  with assms show ?thesis
    by (auto simp: ask_with_mood_unseen ledgers_ok_def less_Suc_eq)
next
  case (Some a)
  with assms show ?thesis
    by (simp add: ask_with_mood_seen ledgers_ok_def)
qed

lemma ask_with_mood_other_user:
  assumes "ledgers_ok st" and "v \<noteq> u"
  shows "same_user st (snd (ask_with_mood llm u q st)) v"
proof (cases "map_of (conversation_state st) u")
  case None
  with assms show ?thesis
    by (auto simp: ask_with_mood_unseen same_user_def conversation_of_def ledgers_ok_def
        map_add_def split: option.splits dest: addr_in_dict)
next
  case (Some a)
  have "map_of (conversation_state st) v \<noteq> Some a"
    using assms Some by (auto simp: ledgers_ok_def dest: addr_of_one_key)
  with Some show ?thesis
    by (auto simp: ask_with_mood_seen same_user_def conversation_of_def split: option.splits)
qed

lemma ask_with_mood_channels:
  assumes "ledgers_ok st"
  shows "same_channel st (snd (ask_with_mood llm u q st)) c"
proof (cases "map_of (conversation_state st) u")
  case None
  with assms show ?thesis
    by (auto simp: ask_with_mood_unseen same_channel_def story_of_def ledgers_ok_def
        split: option.splits dest: addr_in_dict)
next
  case (Some a)
  have "map_of (story_state st) c \<noteq> Some a"
    using assms Some by (auto simp: ledgers_ok_def dest: addr_in_dict)
  with Some show ?thesis
    by (auto simp: ask_with_mood_seen same_channel_def story_of_def split: option.splits)
qed

lemma story_ledgers_ok:
  assumes "ledgers_ok st"
  shows "ledgers_ok (snd (story c author addition st))"
proof (cases "map_of (story_state st) c")
  case None
  with assms show ?thesis
    by (cases addition) (auto simp: story_unseen ledgers_ok_def less_Suc_eq)
next
  case (Some a)
  with assms show ?thesis
    by (cases addition) (simp_all add: story_seen ledgers_ok_def)
qed

lemma story_other_channel:
  assumes "ledgers_ok st" and "d \<noteq> c"
  shows "same_channel st (snd (story c author addition st)) d"
proof (cases "map_of (story_state st) c")
  case None
  with assms show ?thesis
    by (cases addition)
       (auto simp: story_unseen same_channel_def story_of_def ledgers_ok_def
        map_add_def split: option.splits dest: addr_in_dict)
next
  case (Some a)
  have "map_of (story_state st) d \<noteq> Some a"
    using assms Some by (auto simp: ledgers_ok_def dest: addr_of_one_key)
  with Some show ?thesis
    by (cases addition)
       (auto simp: story_seen same_channel_def story_of_def split: option.splits)
qed

lemma story_users:
  assumes "ledgers_ok st"
  shows "same_user st (snd (story c author addition st)) v"
proof (cases "map_of (story_state st) c")
  case None
  with assms show ?thesis
    by (cases addition)
       (auto simp: story_unseen same_user_def conversation_of_def ledgers_ok_def
        split: option.splits dest: addr_in_dict)
next
  case (Some a)
  have "map_of (conversation_state st) v \<noteq> Some a"
    using assms Some by (auto simp: ledgers_ok_def dest: addr_in_dict)
  with Some show ?thesis
    by (cases addition)
       (auto simp: story_seen same_user_def conversation_of_def split: option.splits)
qed

lemma set_mood_fields:
  "conversation_state (snd (set_mood now u author mood st)) = conversation_state st \<and>
   story_state (snd (set_mood now u author mood st)) = story_state st \<and>
   heap (snd (set_mood now u author mood st)) = heap st \<and>
   next_addr (snd (set_mood now u author mood st)) = next_addr st \<and>
   map_of (user_moods (snd (set_mood now u author mood st))) = (map_of (user_moods st))(u \<mapsto> mood) \<and>
   map_of (mood_timers (snd (set_mood now u author mood st))) =
     (map_of (mood_timers st))(u \<mapsto> Some (now + minutes 60))"
  by (simp add: set_mood_def Let_def AList.update_conv')

lemma set_mood_other_user:
  "v \<noteq> u \<Longrightarrow> same_user st (snd (set_mood now u author mood st)) v"
  by (simp add: same_user_def conversation_of_def set_mood_fields split: option.splits)

lemma set_mood_channels: "same_channel st (snd (set_mood now u author mood st)) c"
  by (simp add: same_channel_def story_of_def set_mood_fields split: option.splits)

lemma set_mood_conversation:
  "conversation_of (snd (set_mood now u author mood st)) v = conversation_of st v"
  by (simp add: conversation_of_def set_mood_fields split: option.splits)

lemma set_mood_ledgers_ok: "ledgers_ok st \<Longrightarrow> ledgers_ok (snd (set_mood now u author mood st))"
  by (simp add: ledgers_ok_def set_mood_fields)

section \<open>The loop of the periodic task\<close>

lemma mood_timers_getitem_present:
  "map_of (mood_timers st) u = Some v \<Longrightarrow> mood_timers_getitem u st = (v, st)"
  by (simp add: mood_timers_getitem_def)

lemma reset_mood_loop_ledgers:
  "conversation_state (snd (reset_mood_loop now us st)) = conversation_state st \<and>
   story_state (snd (reset_mood_loop now us st)) = story_state st \<and>
   heap (snd (reset_mood_loop now us st)) = heap st \<and>
   next_addr (snd (reset_mood_loop now us st)) = next_addr st"
  by (induction us arbitrary: st)
     (simp_all add: mood_timers_getitem_def Let_def split: option.splits)

lemma reset_mood_loop_timers:
  assumes "distinct us"
    and "\<forall>u \<in> set us. \<exists>t. map_of (mood_timers st) u = Some (Some t)"
  shows "fst (reset_mood_loop now us st) = None \<and>
    map_of (mood_timers (snd (reset_mood_loop now us st))) =
      (\<lambda>k. if k \<in> set us \<and> (\<exists>t. map_of (mood_timers st) k = Some (Some t) \<and> now k > t)
           then None else map_of (mood_timers st) k) \<and>
    map_of (user_moods (snd (reset_mood_loop now us st))) =
      (\<lambda>k. if k \<in> set us \<and> (\<exists>t. map_of (mood_timers st) k = Some (Some t) \<and> now k > t)
           then None else map_of (user_moods st) k)"
  using assms
proof (induction us arbitrary: st)
  case Nil
  show ?case by simp
next
  case (Cons u rest)
  from Cons.prems obtain t where t: "map_of (mood_timers st) u = Some (Some t)"
    by auto
  have fresh: "u \<notin> set rest" and d: "distinct rest"
    using Cons.prems by auto
  show ?case
  proof (cases "now u > t")
    case True
    let ?st' = "st\<lparr>user_moods := AList.delete u (user_moods st),
                   mood_timers := AList.delete u (mood_timers st)\<rparr>"
    have step: "reset_mood_loop now (u # rest) st = reset_mood_loop now rest ?st'"
      using t True by (simp add: mood_timers_getitem_present)
    have pre: "\<forall>v \<in> set rest. \<exists>t. map_of (mood_timers ?st') v = Some (Some t)"
      using Cons.prems fresh by (auto simp: AList.delete_conv')
    note IH = Cons.IH [OF d pre]
    show ?thesis
      unfolding step using IH t True fresh
      by (auto simp: AList.delete_conv' fun_eq_iff)
  next
    case False
    have step: "reset_mood_loop now (u # rest) st = reset_mood_loop now rest st"
      using t False by (simp add: mood_timers_getitem_present)
    have pre: "\<forall>v \<in> set rest. \<exists>t. map_of (mood_timers st) v = Some (Some t)"
      using Cons.prems by auto
    note IH = Cons.IH [OF d pre]
    show ?thesis
      unfolding step using IH t False fresh
      by (auto simp: fun_eq_iff)
  qed
qed

lemma reset_mood_loop_subset:
  assumes "distinct us"
    and "\<forall>u \<in> set us. \<exists>t. map_of (mood_timers st) u = Some (Some t)"
  shows "set (mood_timers (snd (reset_mood_loop now us st))) \<subseteq> set (mood_timers st) \<and>
    (distinct (map fst (mood_timers st)) \<longrightarrow>
       distinct (map fst (mood_timers (snd (reset_mood_loop now us st)))))"
  using assms
proof (induction us arbitrary: st)
  case Nil
  show ?case by simp
next
  case (Cons u rest)
  from Cons.prems obtain t where t: "map_of (mood_timers st) u = Some (Some t)"
    by auto
  have fresh: "u \<notin> set rest" and d: "distinct rest"
    using Cons.prems by auto
  show ?case
  proof (cases "now u > t")
    case True
    let ?st' = "st\<lparr>user_moods := AList.delete u (user_moods st),
                   mood_timers := AList.delete u (mood_timers st)\<rparr>"
    have step: "reset_mood_loop now (u # rest) st = reset_mood_loop now rest ?st'"
      using t True by (simp add: mood_timers_getitem_present)
    have pre: "\<forall>v \<in> set rest. \<exists>t. map_of (mood_timers ?st') v = Some (Some t)"
      using Cons.prems fresh by (auto simp: AList.delete_conv')
    note IH = Cons.IH [OF d pre]
    have sub: "set (mood_timers ?st') \<subseteq> set (mood_timers st)"
      by (auto simp: AList.delete_eq)
    have dist: "distinct (map fst (mood_timers st)) \<Longrightarrow> distinct (map fst (mood_timers ?st'))"
      by (simp add: AList.distinct_delete)
    show ?thesis
      unfolding step using IH sub dist by blast
  next
    case False
    have step: "reset_mood_loop now (u # rest) st = reset_mood_loop now rest st"
      using t False by (simp add: mood_timers_getitem_present)
    have pre: "\<forall>v \<in> set rest. \<exists>t. map_of (mood_timers st) v = Some (Some t)"
      using Cons.prems by auto
    show ?thesis
      unfolding step using Cons.IH [OF d pre] by simp
  qed
qed

section \<open>Runs\<close>

lemma reset_mood_task_ledgers:
  "conversation_state (snd (reset_mood_task now st)) = conversation_state st \<and>
   story_state (snd (reset_mood_task now st)) = story_state st \<and>
   heap (snd (reset_mood_task now st)) = heap st \<and>
   next_addr (snd (reset_mood_task now st)) = next_addr st"
  unfolding reset_mood_task_def by (rule reset_mood_loop_ledgers)

lemma step_ledgers_ok:
  assumes "ledgers_ok st"
  shows "ledgers_ok (step e st)"
proof (cases e)
  case (SetMood now u author mood)
  with assms show ?thesis by (simp add: set_mood_ledgers_ok)
next
  case (Ask llm u question)
  with assms show ?thesis by (simp add: ask_with_mood_ledgers_ok)
next
  case (Story c author addition)
  with assms show ?thesis by (simp add: story_ledgers_ok)
next
  case (Trivia llm u)
  with assms show ?thesis by (simp add: trivia_def)
next
  case (Summarize llm u body)
  with assms show ?thesis by (simp add: summarize_def)
next
  case (Tick now)
  with assms show ?thesis by (simp add: ledgers_ok_def reset_mood_task_ledgers)
qed

lemma step_story_of:
  assumes "ledgers_ok st"
  shows "story_of (step e st) c = story_of st c @ contribution c e"
proof (cases e)
  case (SetMood now u author mood)
  then show ?thesis
    using set_mood_channels [of st now u author mood c] by (simp add: same_channel_def)
next
  case (Ask llm u question)
  then show ?thesis
    using ask_with_mood_channels [OF assms, of llm u question c] by (simp add: same_channel_def)
next
  case (Story d author addition)
  show ?thesis
  proof (cases "d = c")
    case True
    with Story show ?thesis by (simp add: story_of_story)
  next
    case False
    then have "contribution c (Story d author addition) = []"
      by (cases addition) simp_all
    moreover have "story_of (snd (story d author addition st)) c = story_of st c"
      using story_other_channel [OF assms, of c d author addition] False
      by (simp add: same_channel_def)
    ultimately show ?thesis using Story by simp
  qed
next
  case (Trivia llm u)
  then show ?thesis by (simp add: trivia_def)
next
  case (Summarize llm u body)
  then show ?thesis by (simp add: summarize_def)
next
  case (Tick now)
  then show ?thesis by (simp add: story_of_def reset_mood_task_ledgers split: option.splits)
qed

lemma run_ledgers_ok: "ledgers_ok st \<Longrightarrow> ledgers_ok (run es st)"
  by (induction es arbitrary: st) (simp_all add: step_ledgers_ok)

lemma run_story_of:
  "ledgers_ok st \<Longrightarrow> story_of (run es st) c = story_of st c @ contributions c es"
  by (induction es arbitrary: st) (simp_all add: step_ledgers_ok step_story_of)

lemma run_append: "run (es @ es') st = run es' (run es st)"
  by (induction es arbitrary: st) simp_all

lemma ledgers_ok_initial: "ledgers_ok initial_state"
  by (simp add: ledgers_ok_def initial_state_def)

lemma story_of_initial: "story_of initial_state c = []"
  by (simp add: story_of_def initial_state_def)

lemma story_response:
  "fst (story c author addition st) =
     (if contribution c (Story c author addition) = []
      then (if story_of st c = [] then ''No story started yet!''
            else STORY_READ_HEADER @ join ''\<newline>'' (story_of st c))
      else ''Story so far:\<newline>'' @
           join ''\<newline>'' (story_of st c @ contribution c (Story c author addition)))"
proof (cases "map_of (story_state st) c")
  case None
  then show ?thesis
    by (cases addition) (simp_all add: story_unseen story_of_def)
next
  case (Some a)
  then show ?thesis
    by (cases addition) (simp_all add: story_seen story_of_def)
qed

text \<open>
  C7. After any run from the start of the process, the story of a channel is the list of
  the contributions made to that channel, in the order they were made: as many entries as
  there were contributions. A longer run only appends to it. No event of any kind, on
  this or another channel or user and no tick of the periodic task, removes an entry.
  A read of the channel answers with all of them, joined in that order under the header,
  or with \<open>No story started yet!\<close> when there are none; a \<open>!story\<close> that adds
  answers with all of them and the new one.
\<close>

theorem story_ledger_only_grows:
  "story_of (run es initial_state) c = contributions c es \<and>
   length (story_of (run es initial_state) c) = length (contributions c es) \<and>
   story_of (run (es @ es') initial_state) c =
     story_of (run es initial_state) c @ contributions c es' \<and>
   fst (story c author None (run es initial_state)) =
     (if contributions c es = [] then ''No story started yet!''
      else STORY_READ_HEADER @ join ''\<newline>'' (contributions c es)) \<and>
   fst (story c author addition (run es initial_state)) =
     (if contribution c (Story c author addition) = []
      then (if contributions c es = [] then ''No story started yet!''
            else STORY_READ_HEADER @ join ''\<newline>'' (contributions c es))
      else ''Story so far:\<newline>'' @
           join ''\<newline>'' (contributions c es @ contribution c (Story c author addition)))"
proof -
  have now: "story_of (run es initial_state) c = contributions c es"
    by (simp add: run_story_of ledgers_ok_initial story_of_initial)
  have later: "story_of (run (es @ es') initial_state) c =
      story_of (run es initial_state) c @ contributions c es'"
    by (simp add: run_append run_story_of run_ledgers_ok ledgers_ok_initial)
  have read: "fst (story c author None (run es initial_state)) =
     (if contributions c es = [] then ''No story started yet!''
      else STORY_READ_HEADER @ join ''\<newline>'' (contributions c es))"
    by (simp add: story_response now)
  show ?thesis
    using now later read by (simp add: story_response)
qed

text \<open>
  C10. In every state \<open>st\<close> that a run reaches: \<open>!ask\<close> and \<open>!setmood\<close> of user
  \<open>u\<close> leave to every other user \<open>v\<close> the mood, the timer, the list object and the
  turns, and leave every channel its story; \<open>!story\<close> on channel \<open>c\<close> leaves every
  other channel \<open>d\<close> its story and every user everything. In \<open>st\<close> no list object
  belongs to two users, to two channels, or to a user and a channel. The shared default
  list of \<open>ask_llm\<close> is only read and is never stored in a dictionary.
\<close>

theorem handlers_leave_other_keys:
  fixes es :: "event list"
  defines "st \<equiv> run es initial_state"
  shows "(v \<noteq> u \<longrightarrow> same_user st (snd (ask_with_mood llm u q st)) v) \<and>
         same_channel st (snd (ask_with_mood llm u q st)) d \<and>
         (v \<noteq> u \<longrightarrow> same_user st (snd (set_mood now u author mood st)) v) \<and>
         same_channel st (snd (set_mood now u author mood st)) d \<and>
         (d \<noteq> c \<longrightarrow> same_channel st (snd (story c author addition st)) d) \<and>
         same_user st (snd (story c author addition st)) v \<and>
         no_sharing st"
proof -
  have ok: "ledgers_ok st"
    unfolding st_def by (rule run_ledgers_ok) (rule ledgers_ok_initial)
  show ?thesis
    using ok
    by (simp add: ask_with_mood_other_user ask_with_mood_channels set_mood_other_user
        set_mood_channels story_other_channel story_users ledgers_ok_no_sharing)
qed

text \<open>
  C10 at a run: user 2 has asked and channel 6 has a story; then user 1 asks, user 1
  sets a mood, and somebody adds to channel 5.
\<close>

theorem handlers_leave_other_keys_witness:
  "(2::int) \<noteq> 1 \<and> (6::int) \<noteq> 5 \<and>
   same_user
     (run [Ask (replies ''ok'') 2 ''hi'', Story 6 ''Bob'' (Some ''Once'')] initial_state)
     (snd (ask_with_mood (replies ''ok'') 1 ''hello''
        (run [Ask (replies ''ok'') 2 ''hi'', Story 6 ''Bob'' (Some ''Once'')] initial_state))) 2 \<and>
   same_user
     (run [Ask (replies ''ok'') 2 ''hi'', Story 6 ''Bob'' (Some ''Once'')] initial_state)
     (snd (set_mood 0 1 ''al'' ''formal''
        (run [Ask (replies ''ok'') 2 ''hi'', Story 6 ''Bob'' (Some ''Once'')] initial_state))) 2 \<and>
   same_channel
     (run [Ask (replies ''ok'') 2 ''hi'', Story 6 ''Bob'' (Some ''Once'')] initial_state)
     (snd (story 5 ''al'' (Some ''Twice'')
        (run [Ask (replies ''ok'') 2 ''hi'', Story 6 ''Bob'' (Some ''Once'')] initial_state))) 6 \<and>
   no_sharing
     (run [Ask (replies ''ok'') 2 ''hi'', Story 6 ''Bob'' (Some ''Once'')] initial_state)"
  using handlers_leave_other_keys
    [where v = 2 and u = 1 and d = 6 and c = 5 and llm = "replies ''ok''" and q = "''hello''"
       and now = 0 and author = "''al''" and mood = "''formal''" and addition = "Some ''Twice''"
       and es = "[Ask (replies ''ok'') 2 ''hi'', Story 6 ''Bob'' (Some ''Once'')]"]
  by simp

section \<open>The mood dictionaries and the registry\<close>

lemma ask_with_mood_moods:
  "user_moods (snd (ask_with_mood llm u q st)) = user_moods st \<and>
   mood_timers (snd (ask_with_mood llm u q st)) = mood_timers st"
  by (cases "map_of (conversation_state st) u")
     (simp_all add: ask_with_mood_unseen ask_with_mood_seen)

lemma story_moods:
  "user_moods (snd (story c author addition st)) = user_moods st \<and>
   mood_timers (snd (story c author addition st)) = mood_timers st"
  by (cases "map_of (story_state st) c"; cases addition)
     (simp_all add: story_unseen story_seen)

lemma holds_registry_timer:
  assumes "holds_registry st reg" and "u \<in> set (map fst (mood_timers st))"
  shows "\<exists>l t. reg u = Some (l, t) \<and> map_of (mood_timers st) u = Some (Some t)"
proof -
  have "map_of (mood_timers st) u \<noteq> None"
    using assms(2) by (simp add: map_of_eq_None_iff)
  moreover have "map_of (mood_timers st) u = map_option (Some \<circ> snd) (reg u)"
    using assms(1) by (simp add: holds_registry_def)
  ultimately show ?thesis
    by (cases "reg u") auto
qed

lemma holds_registry_keys:
  assumes "holds_registry st reg"
  shows "u \<in> set (map fst (mood_timers st)) \<longleftrightarrow> reg u \<noteq> None"
proof -
  have "map_of (mood_timers st) u = map_option (Some \<circ> snd) (reg u)"
    using assms by (simp add: holds_registry_def)
  then have "map_of (mood_timers st) u = None \<longleftrightarrow> reg u = None"
    by simp
  then show ?thesis
    using map_of_eq_None_iff [of "mood_timers st" u] by (cases "reg u") auto
qed

text \<open>
  In a state that holds a registry the periodic task raises no exception, and it does to
  the two dictionaries what a sweep does to the registry.
\<close>

lemma reset_mood_task_registry:
  assumes "holds_registry st reg"
  shows "fst (reset_mood_task now st) = None \<and>
         holds_registry (snd (reset_mood_task now st)) (registry_step (Tick now) reg)"
proof -
  let ?us = "map fst (mood_timers st)"
  let ?st' = "snd (reset_mood_loop now ?us st)"
  have d: "distinct ?us"
    using assms by (simp add: holds_registry_def)
  have pre: "\<forall>u \<in> set ?us. \<exists>t. map_of (mood_timers st) u = Some (Some t)"
    using holds_registry_timer [OF assms] by blast
  note timers = reset_mood_loop_timers [OF d pre, of now]
  note subset = reset_mood_loop_subset [OF d pre, of now]
  have m: "map_of (user_moods st) k = map_option fst (reg k)"
    and t: "map_of (mood_timers st) k = map_option (Some \<circ> snd) (reg k)" for k
    using assms by (simp_all add: holds_registry_def)
  have keys: "k \<in> set ?us \<longleftrightarrow> reg k \<noteq> None" for k
    by (rule holds_registry_keys [OF assms])
  have "map_of (user_moods ?st') k = map_option fst (registry_step (Tick now) reg k)" for k
    using timers keys [of k] m [of k] t [of k]
    by (cases "reg k") (auto split: if_splits)
  moreover have "map_of (mood_timers ?st') k =
      map_option (Some \<circ> snd) (registry_step (Tick now) reg k)" for k
    using timers keys [of k] m [of k] t [of k]
    by (cases "reg k") (auto split: if_splits)
  moreover have "distinct (map fst (mood_timers ?st'))"
    using subset d by simp
  ultimately have "holds_registry ?st' (registry_step (Tick now) reg)"
    unfolding holds_registry_def by (simp add: fun_eq_iff)
  then show ?thesis
    using timers by (simp add: reset_mood_task_def)
qed

lemma set_mood_registry:
  assumes "holds_registry st reg"
  shows "holds_registry (snd (set_mood now u author mood st))
           (registry_step (SetMood now u author mood) reg)"
proof -
  have "distinct (map fst (mood_timers (snd (set_mood now u author mood st))))"
    using assms by (simp add: set_mood_def Let_def holds_registry_def AList.distinct_update)
  then show ?thesis
    using assms by (simp add: holds_registry_def set_mood_fields fun_eq_iff)
qed

lemma step_registry:
  assumes "holds_registry st reg"
  shows "holds_registry (step e st) (registry_step e reg)"
proof (cases e)
  case (SetMood now u author mood)
  then show ?thesis
    using set_mood_registry [OF assms, of now u author mood] by simp
next
  case (Ask llm u question)
  with assms show ?thesis by (simp add: holds_registry_def ask_with_mood_moods)
next
  case (Story c author addition)
  with assms show ?thesis by (simp add: holds_registry_def story_moods)
next
  case (Trivia llm u)
  with assms show ?thesis by (simp add: trivia_def)
next
  case (Summarize llm u body)
  with assms show ?thesis by (simp add: summarize_def)
next
  case (Tick now)
  then show ?thesis
    using reset_mood_task_registry [OF assms, of now] by simp
qed

lemma run_registry:
  "holds_registry st reg \<Longrightarrow> holds_registry (run es st) (registry_run es reg)"
  by (induction es arbitrary: st reg) (simp_all add: step_registry)

lemma holds_registry_initial: "holds_registry initial_state Map.empty"
  by (simp add: holds_registry_def initial_state_def fun_eq_iff)

lemma holds_registry_read:
  "holds_registry st reg \<Longrightarrow> dict_get (user_moods st) u ''friendly'' = stored_or_default reg u"
  by (cases "reg u") (auto simp: holds_registry_def dict_get_def stored_or_default_def)

text \<open>
  C2, as the code has it. After any run from the start of the process, the mood that a
  handler reads for a user is the label of the registry entry of that user, and
  \<open>friendly\<close> when there is no entry: when no \<open>!setmood\<close> of the user has occurred,
  or when a tick whose clock reading was later than \<open>expiresAt\<close> has deleted the entry
  since the last one. The read does not look at the clock, so an entry that is past its
  time and not yet swept still gives its label. \<open>!ask\<close> hands this mood to the model.
\<close>

theorem mood_read_is_stored_or_default:
  "dict_get (user_moods (run es initial_state)) u ''friendly'' =
     stored_or_default (registry_run es Map.empty) u \<and>
   fst (ask_with_mood llm u q (run es initial_state)) =
     ask_llm llm q (stored_or_default (registry_run es Map.empty) u)
       (trim (conversation_of (run es initial_state) u @ [''User: '' @ q]))"
proof -
  have "holds_registry (run es initial_state) (registry_run es Map.empty)"
    by (rule run_registry) (rule holds_registry_initial)
  then have "dict_get (user_moods (run es initial_state)) u ''friendly'' =
      stored_or_default (registry_run es Map.empty) u"
    by (rule holds_registry_read)
  then show ?thesis
    by (simp add: ask_with_mood_response)
qed

text \<open>
  C2 fails as stated. User 1 sets the mood \<open>sarcastic\<close> at time 0, so the entry expires
  at minute 60. At minute 61 user 2 sets a mood; no tick of the periodic task has run.
  The mood read for user 1 is still \<open>sarcastic\<close>, and \<open>!trivia\<close> of user 1 hands it
  to the model.
\<close>

theorem expired_mood_counterexample:
  "map_of (mood_timers (run [SetMood 0 1 ''al'' ''sarcastic'',
       SetMood (minutes 61) 2 ''bo'' ''formal''] initial_state)) 1 = Some (Some (minutes 60)) \<and>
   dict_get (user_moods (run [SetMood 0 1 ''al'' ''sarcastic'',
       SetMood (minutes 61) 2 ''bo'' ''formal''] initial_state)) 1 ''friendly'' = ''sarcastic'' \<and>
   fst (trivia echo 1 (run [SetMood 0 1 ''al'' ''sarcastic'',
       SetMood (minutes 61) 2 ''bo'' ''formal''] initial_state)) =
     ''Trivia Time: Respond in a sarcastic tone.\<newline>\<newline>User: Ask me a fun trivia question.''"
proof -
  have a: "map_of (mood_timers (run [SetMood 0 1 ''al'' ''sarcastic'',
       SetMood (minutes 61) 2 ''bo'' ''formal''] initial_state)) 1 = Some (Some (minutes 60))"
    by (simp add: set_mood_fields)
  have b: "dict_get (user_moods (run [SetMood 0 1 ''al'' ''sarcastic'',
       SetMood (minutes 61) 2 ''bo'' ''formal''] initial_state)) 1 ''friendly'' = ''sarcastic''"
    by (simp add: dict_get_def set_mood_fields)
  have c: "ask_llm echo ''Ask me a fun trivia question.'' ''sarcastic'' [] =
      ''Respond in a sarcastic tone.\<newline>\<newline>User: Ask me a fun trivia question.''"
    by (simp add: ask_llm_def echo_def ask_llm_prompt_def strip_def text_eval)
  have d: "fst (trivia echo 1 (run [SetMood 0 1 ''al'' ''sarcastic'',
       SetMood (minutes 61) 2 ''bo'' ''formal''] initial_state)) =
       ''Trivia Time: '' @ ask_llm echo ''Ask me a fun trivia question.'' ''sarcastic'' []"
    unfolding trivia_def Let_def b by simp
  show ?thesis
    unfolding d c using a b by simp
qed

section \<open>The schedule of the periodic task\<close>




section \<open>Further facts\<close>

text \<open>Along every run from the start of the process the periodic task raises nothing.\<close>

lemma reset_mood_task_never_raises:
  "fst (reset_mood_task now (run es initial_state)) = None"
proof -
  have "holds_registry (run es initial_state) (registry_run es Map.empty)"
    by (rule run_registry) (rule holds_registry_initial)
  then show ?thesis
    by (simp add: reset_mood_task_registry)
qed

text \<open>
  The prompt of \<open>!ask\<close> in general, when the ledger with the new user turn is within
  the limit: the turns of the ledger, the new user turn, and the question once more.
\<close>

lemma ask_with_mood_prompt_within_limit:
  assumes "total_tokens (conversation_of st u @ [''User: '' @ q]) \<le> TOKEN_LIMIT"
  shows "fst (ask_with_mood llm u q st) =
    (case llm (''Respond in a '' @ dict_get (user_moods st) u ''friendly'' @ '' tone.\<newline>'' @
               join ''\<newline>'' (conversation_of st u @ [''User: '' @ q]) @
               ''\<newline>User: '' @ q) of
       Some content \<Rightarrow> strip content
     | None \<Rightarrow> FALLBACK)"
  using trim_within_limit [OF assms]
  by (simp add: ask_with_mood_response ask_llm_def ask_llm_prompt_def)

end
